theory Spec2Isabelle
  imports Complex_Main "HOL-Library.Sublist" "HOL-Library.Monad_Syntax"
begin

section \<open>Strings of the runtime\<close>

text \<open>
  A message text is a list of code units. The model covers the code units 0 to 255 (the
  type \<open>char\<close>); on this range the runtime functions below are modelled exactly:
  \<open>toLowerCase\<close> moves A to Z and the Latin-1 capitals (192 to 222 without 215) up by 32,
  and changes nothing else.
\<close>

definition toLowerChar :: "char \<Rightarrow> char" where
  "toLowerChar c =
     (let n = (of_char c :: nat)
      in if (65 \<le> n \<and> n \<le> 90) \<or> (192 \<le> n \<and> n \<le> 222 \<and> n \<noteq> 215)
         then char_of (n + 32) else c)"

definition toLowerCase :: "string \<Rightarrow> string" where
  "toLowerCase s = map toLowerChar s"

text \<open>
  White space and line terminators of the language below code unit 256: tab, line feed,
  vertical tab, form feed, carriage return, space, no-break space.
\<close>

definition isWhitespace :: "char \<Rightarrow> bool" where
  "isWhitespace c = ((of_char c :: nat) \<in> {9, 10, 11, 12, 13, 32, 160})"

text \<open>\<open>s.includes(k)\<close>: some position of \<open>s\<close> starts a copy of \<open>k\<close>.\<close>

fun String_includes :: "string \<Rightarrow> string \<Rightarrow> bool" where
  "String_includes [] k = (k = [])"
| "String_includes (c # cs) k = (prefix k (c # cs) \<or> String_includes cs k)"

section \<open>constants.ts\<close>

definition SCAM_KEYWORDS :: "string list" where
  "SCAM_KEYWORDS =
     [''urgent'', ''blocked'', ''verify'', ''otp'', ''account compromised'', ''cashback'',
      ''won'', ''claim'', ''link'', ''expires'', ''congratulations'', ''reward'', ''offer'',
      ''limited time'', ''important security alert'', ''suspicious activity'',
      ''update your information'', ''login now'', ''verify your identity'',
      ''click here'', ''download now'', ''payment failed'', ''transaction alert'',
      ''prize'', ''lucky draw'', ''your package is delayed'']"

section \<open>detectScam\<close>

definition detectScam :: "string \<Rightarrow> bool \<Rightarrow> bool" where
  "detectScam message currentScamDetected =
     (if currentScamDetected then True
      else (let lowerCaseMessage = toLowerCase message
            in list_ex (\<lambda>keyword. String_includes lowerCaseMessage (toLowerCase keyword))
                 SCAM_KEYWORDS))"

section \<open>Regular expressions of the runtime\<close>

text \<open>
  The six patterns of the module use literals, character classes, \<open>\b\<close>, sequence,
  alternative, an optional item, a counted repetition of a class and one capturing group.
  A class is a list of items: a character, a range, \<open>\d\<close> or \<open>\s\<close>.
\<close>

datatype citem = Ch char | Rng char char | Digit | Space

datatype re =
    Eps
  | Lit char
  | Cls "citem list"
  | WordB
  | Seq re re
  | Alt re re
  | Opt re
  | Rep nat "nat option" "citem list"
  | Grp re

fun seqs :: "re list \<Rightarrow> re" where
  "seqs [] = Eps"
| "seqs [r] = r"
| "seqs (r # rs) = Seq r (seqs rs)"

definition lits :: "string \<Rightarrow> re" where
  "lits w = seqs (map Lit w)"

text \<open>
  With the flag \<open>i\<close> two code units match when their canonical forms agree: the upper
  case of a to z and of the Latin-1 small letters (224 to 254 without 247). The two other
  code units below 256 that have an upper case (181 and 255) go outside the range and so
  agree with themselves only.
\<close>

definition canon :: "bool \<Rightarrow> char \<Rightarrow> char" where
  "canon ignoreCase' c =
     (let n = (of_char c :: nat)
      in if ignoreCase' \<and> ((97 \<le> n \<and> n \<le> 122) \<or> (224 \<le> n \<and> n \<le> 254 \<and> n \<noteq> 247))
         then char_of (n - 32) else c)"

definition chars_between :: "char \<Rightarrow> char \<Rightarrow> char list" where
  "chars_between a b = map char_of [of_char a ..< Suc (of_char b)]"

fun citem_match :: "bool \<Rightarrow> citem \<Rightarrow> char \<Rightarrow> bool" where
  "citem_match ic (Ch a) c = (canon ic a = canon ic c)"
| "citem_match ic (Rng a b) c =
     (if ic then list_ex (\<lambda>m. canon ic m = canon ic c) (chars_between a b)
      else (of_char a :: nat) \<le> of_char c \<and> (of_char c :: nat) \<le> of_char b)"
| "citem_match ic Digit c = (48 \<le> (of_char c :: nat) \<and> (of_char c :: nat) \<le> 57)"
| "citem_match ic Space c = isWhitespace c"

definition class_match :: "bool \<Rightarrow> citem list \<Rightarrow> char \<Rightarrow> bool" where
  "class_match ic items c = list_ex (\<lambda>it. citem_match ic it c) items"

text \<open>\<open>\w\<close>, and \<open>\b\<close> at position \<open>i\<close>: exactly one neighbour is a word character.\<close>

definition isWordChar :: "char \<Rightarrow> bool" where
  "isWordChar c =
     (let n = (of_char c :: nat)
      in (48 \<le> n \<and> n \<le> 57) \<or> (65 \<le> n \<and> n \<le> 90) \<or> n = 95 \<or> (97 \<le> n \<and> n \<le> 122))"

definition wordBoundary :: "string \<Rightarrow> nat \<Rightarrow> bool" where
  "wordBoundary s i =
     ((0 < i \<and> i \<le> length s \<and> isWordChar (s ! (i - 1)))
        \<noteq> (i < length s \<and> isWordChar (s ! i)))"

text \<open>
  Backtracking as the list of successes, in the order the matcher tries them. A state is
  the position and the span of the capturing group. A greedy item tries the longest
  continuation first; an optional item discards an empty iteration.
\<close>

type_synonym mstate = "nat \<times> (nat \<times> nat) option"

fun rmatch :: "bool \<Rightarrow> string \<Rightarrow> re \<Rightarrow> mstate \<Rightarrow> mstate list" where
  "rmatch ic s Eps st = [st]"
| "rmatch ic s (Lit a) (i, cap) =
     (if i < length s \<and> canon ic (s ! i) = canon ic a then [(Suc i, cap)] else [])"
| "rmatch ic s (Cls items) (i, cap) =
     (if i < length s \<and> class_match ic items (s ! i) then [(Suc i, cap)] else [])"
| "rmatch ic s WordB (i, cap) = (if wordBoundary s i then [(i, cap)] else [])"
| "rmatch ic s (Seq a b) st = concat (map (rmatch ic s b) (rmatch ic s a st))"
| "rmatch ic s (Alt a b) st = rmatch ic s a st @ rmatch ic s b st"
| "rmatch ic s (Opt a) (i, cap) =
     filter (\<lambda>st'. fst st' \<noteq> i) (rmatch ic s a (i, cap)) @ [(i, cap)]"
| "rmatch ic s (Rep lo hi items) (i, cap) =
     (let run = length (takeWhile (class_match ic items) (drop i s));
          top = (case hi of None \<Rightarrow> run | Some h \<Rightarrow> min h run)
      in if top < lo then [] else map (\<lambda>k. (i + k, cap)) (rev [lo ..< Suc top]))"
| "rmatch ic s (Grp a) (i, cap) =
     map (\<lambda>st'. (fst st', Some (i, fst st'))) (rmatch ic s a (i, cap))"

text \<open>
  A \<open>RegExp\<close> object with the flag \<open>g\<close>. \<open>exec\<close> starts at \<open>lastIndex\<close>, moves right
  until the pattern matches, and stores the end of the match in \<open>lastIndex\<close>; when no
  position matches, or \<open>lastIndex\<close> is beyond the text, it stores 0 and returns \<open>null\<close>.
\<close>

record RegExp =
  source :: re
  ignoreCase :: bool
  lastIndex :: nat

function search :: "bool \<Rightarrow> re \<Rightarrow> string \<Rightarrow> nat \<Rightarrow> (nat \<times> mstate) option" where
  "search ic r s i =
     (if length s < i then None
      else (case rmatch ic s r (i, None) of
              [] \<Rightarrow> search ic r s (Suc i)
            | st # _ \<Rightarrow> Some (i, st)))"
  by pat_completeness auto
termination
  by (relation "measure (\<lambda>(ic, r, s, i). Suc (length s) - i)") auto

declare search.simps [simp del]

definition substring :: "string \<Rightarrow> nat \<Rightarrow> nat \<Rightarrow> string" where
  "substring s i e = take (e - i) (drop i s)"

text \<open>A match array: \<open>match[0]\<close>, and \<open>match[1]\<close> when the group took part.\<close>

type_synonym match = "string \<times> string option"

definition exec :: "RegExp \<Rightarrow> string \<Rightarrow> match option \<times> RegExp" where
  "exec R s =
     (case search (ignoreCase R) (source R) s (lastIndex R) of
        None \<Rightarrow> (None, R\<lparr>lastIndex := 0\<rparr>)
      | Some (i, e, cap) \<Rightarrow>
          (Some (substring s i e, map_option (\<lambda>(a, b). substring s a b) cap),
           R\<lparr>lastIndex := e\<rparr>))"

text \<open>\<open>Set.prototype.add\<close> on the insertion-ordered list.\<close>

definition Set_add :: "string \<Rightarrow> string list \<Rightarrow> string list" where
  "Set_add x xs = (if x \<in> set xs then xs else xs @ [x])"

section \<open>types.ts, as the functions use it\<close>

text \<open>
  A \<open>number\<close> is a finite value, \<open>NaN\<close> or an infinity. The finite values are
  modelled by rationals; the scores are sums of 5, 10 and 2.5, which doubles hold exactly.
\<close>

datatype jsnum = Finite rat | NaN | PosInf | NegInf

fun truthy_num :: "jsnum \<Rightarrow> bool" where
  "truthy_num (Finite r) = (r \<noteq> 0)"
| "truthy_num NaN = False"
| "truthy_num PosInf = True"
| "truthy_num NegInf = True"

text \<open>\<open>x > r\<close> and \<open>x >= r\<close> for a finite literal \<open>r\<close>.\<close>

fun num_gt :: "jsnum \<Rightarrow> rat \<Rightarrow> bool" where
  "num_gt (Finite x) r = (r < x)"
| "num_gt NaN r = False"
| "num_gt PosInf r = True"
| "num_gt NegInf r = False"

fun num_ge :: "jsnum \<Rightarrow> rat \<Rightarrow> bool" where
  "num_ge (Finite x) r = (r \<le> x)"
| "num_ge NaN r = False"
| "num_ge PosInf r = True"
| "num_ge NegInf r = False"

text \<open>\<open>x || 0\<close> on a property that may be missing (\<open>None\<close> is \<open>undefined\<close>).\<close>

fun num_or_zero :: "jsnum option \<Rightarrow> jsnum" where
  "num_or_zero None = Finite 0"
| "num_or_zero (Some x) = (if truthy_num x then x else Finite 0)"

datatype Sender = SCAMMER | HONEYPOT | USER

record ConversationMessage =
  sender :: Sender
  msg_text :: string
  timestamp :: string

text \<open>
  The six categories. A \<open>Set\<close> of strings is held as the list of its members in insertion
  order, without repetition; an array is a list.
\<close>

record ExtractedIntelligence =
  phoneNumbers :: "string list"
  bankAccounts :: "string list"
  upiIds :: "string list"
  phishingLinks :: "string list"
  emailAddresses :: "string list"
  otherIds :: "string list"

record EngagementMetrics =
  em_totalMessagesExchanged :: "jsnum option"
  engagementDurationSeconds :: "jsnum option"

text \<open>
  A property of a \<open>FinalOutput\<close> object that is absent is \<open>None\<close>, so that
  \<open>field in finalOutput\<close> can be asked.
\<close>

record FinalOutput =
  sessionId :: "string option"
  scamDetected :: "bool option"
  totalMessagesExchanged :: "jsnum option"
  extractedIntelligence :: "ExtractedIntelligence option"
  engagementMetrics :: "EngagementMetrics option"
  agentNotes :: "string option"

text \<open>
  Of a scenario the functions read \<open>fakeData\<close> only: the entries of the object in the
  order \<open>Object.entries\<close> lists them, a value being a string or \<open>undefined\<close>.
\<close>

record Scenario =
  fakeData :: "(string \<times> string option) list"

record ScoreBreakdown =
  scamDetection :: rat
  intelligenceExtraction :: rat
  engagementQuality :: rat
  responseStructure :: rat
  total :: rat

datatype error = TypeError

section \<open>The patterns of the module\<close>

definition separators :: "citem list" where
  "separators = [Ch CHR ''-'', Ch CHR ''.'', Space]"

definition alnum :: "citem list" where
  "alnum = [Rng CHR ''a'' CHR ''z'', Rng CHR ''A'' CHR ''Z'', Rng CHR ''0'' CHR ''9'']"

definition PHONE_NUMBER_pattern :: re where
  "PHONE_NUMBER_pattern =
     seqs [WordB,
           Opt (seqs [Opt (Lit CHR ''+''), Rep 1 (Some 3) [Digit], Opt (Cls separators)]),
           Grp (seqs [Opt (Lit CHR ''(''), Rep 3 (Some 3) [Digit], Opt (Lit CHR '')''),
                      Opt (Cls separators), Rep 3 (Some 3) [Digit],
                      Opt (Cls separators), Rep 4 (Some 4) [Digit]]),
           WordB]"

definition BANK_ACCOUNT_pattern :: re where
  "BANK_ACCOUNT_pattern =
     seqs [WordB,
           Alt (Rep 9 (Some 18) [Digit])
               (seqs [Rep 4 (Some 4) [Rng CHR ''A'' CHR ''Z''], Rep 7 (Some 7) [Digit],
                      Cls [Rng CHR ''A'' CHR ''Z''], Rep 6 (Some 6) [Digit]]),
           WordB]"

definition UPI_ID_pattern :: re where
  "UPI_ID_pattern =
     seqs [WordB,
           Rep 1 None (alnum @ [Ch CHR ''.'', Ch CHR ''-'', Ch CHR ''_'']),
           Lit CHR ''@'',
           Rep 1 None (alnum @ [Ch CHR ''.'', Ch CHR ''-'', Ch CHR ''_'']),
           WordB]"

definition PHISHING_LINK_pattern :: re where
  "PHISHING_LINK_pattern =
     Grp (seqs [lits ''http'', Opt (Lit CHR ''s''), lits ''://'', Opt (lits ''www.''),
                Rep 1 (Some 256)
                  ([Ch CHR ''-''] @ alnum @
                   [Ch CHR ''@'', Ch CHR '':'', Ch CHR ''%'', Ch CHR ''.'', Ch CHR ''_'',
                    Ch CHR ''+'', Ch CHR ''~'', Ch CHR ''#'', Ch CHR ''='']),
                Lit CHR ''.'',
                Rep 1 (Some 6) (alnum @ [Ch CHR ''('', Ch CHR '')'']),
                WordB,
                Rep 0 None
                  ([Ch CHR ''-''] @ alnum @
                   [Ch CHR ''('', Ch CHR '')'', Ch CHR ''@'', Ch CHR '':'', Ch CHR ''%'',
                    Ch CHR ''_'', Ch CHR ''+'', Ch CHR ''.'', Ch CHR ''~'', Ch CHR ''#'',
                    Ch CHR ''?'', Ch CHR ''&'', Ch CHR ''/'', Ch CHR ''/'', Ch CHR ''=''])])"

definition EMAIL_ADDRESS_pattern :: re where
  "EMAIL_ADDRESS_pattern =
     seqs [WordB,
           Rep 1 None
             [Rng CHR ''A'' CHR ''Z'', Rng CHR ''a'' CHR ''z'', Rng CHR ''0'' CHR ''9'',
              Ch CHR ''.'', Ch CHR ''_'', Ch CHR ''%'', Ch CHR ''+'', Ch CHR ''-''],
           Lit CHR ''@'',
           Rep 1 None
             [Rng CHR ''A'' CHR ''Z'', Rng CHR ''a'' CHR ''z'', Rng CHR ''0'' CHR ''9'',
              Ch CHR ''.'', Ch CHR ''-''],
           Lit CHR ''.'',
           Rep 2 None [Rng CHR ''A'' CHR ''Z'', Rng CHR ''a'' CHR ''z''],
           WordB]"

definition GENERIC_ID_pattern :: re where
  "GENERIC_ID_pattern =
     seqs [WordB,
           Alt (lits ''ID'') (Alt (lits ''Ref'') (Alt (lits ''Code'') (lits ''No''))),
           Rep 0 None [Space],
           Cls [Ch CHR '':'', Ch CHR ''#''],
           Rep 0 None [Space],
           Grp (Rep 4 (Some 15) alnum),
           WordB]"

text \<open>
  The six \<open>RegExp\<close> objects are created once, when the module is loaded, and shared by
  all calls: they are the state of the module.
\<close>

record Module =
  PHONE_NUMBER_REGEX :: RegExp
  BANK_ACCOUNT_REGEX :: RegExp
  UPI_ID_REGEX :: RegExp
  PHISHING_LINK_REGEX :: RegExp
  EMAIL_ADDRESS_REGEX :: RegExp
  GENERIC_ID_REGEX :: RegExp

definition module_loaded :: Module where
  "module_loaded =
     \<lparr> PHONE_NUMBER_REGEX =
         \<lparr> source = PHONE_NUMBER_pattern, ignoreCase = False, lastIndex = 0 \<rparr>,
       BANK_ACCOUNT_REGEX =
         \<lparr> source = BANK_ACCOUNT_pattern, ignoreCase = False, lastIndex = 0 \<rparr>,
       UPI_ID_REGEX =
         \<lparr> source = UPI_ID_pattern, ignoreCase = False, lastIndex = 0 \<rparr>,
       PHISHING_LINK_REGEX =
         \<lparr> source = PHISHING_LINK_pattern, ignoreCase = False, lastIndex = 0 \<rparr>,
       EMAIL_ADDRESS_REGEX =
         \<lparr> source = EMAIL_ADDRESS_pattern, ignoreCase = False, lastIndex = 0 \<rparr>,
       GENERIC_ID_REGEX =
         \<lparr> source = GENERIC_ID_pattern, ignoreCase = True, lastIndex = 0 \<rparr> \<rparr>"

section \<open>extractIntelligence\<close>

text \<open>\<open>match[0].replace(/[-\s()]/g, '')\<close>: every code unit of the class is dropped.\<close>

definition normalizePhone :: "match \<Rightarrow> string" where
  "normalizePhone m =
     filter (\<lambda>c. \<not> class_match False [Ch CHR ''-'', Space, Ch CHR ''('', Ch CHR '')''] c) (fst m)"

definition match0 :: "match \<Rightarrow> string" where
  "match0 m = fst m"

text \<open>
  \<open>match[1]\<close>. The group of \<open>GENERIC_ID_REGEX\<close> is not optional, so every match has
  it (lemma \<open>generic_id_group\<close> below); the other branch stands for \<open>undefined\<close>.
\<close>

definition match1 :: "match \<Rightarrow> string" where
  "match1 m = (case snd m of Some g \<Rightarrow> g | None \<Rightarrow> ''undefined'')"

text \<open>
  \<open>while ((match = R.exec(message)) !== null) set.add(pick(match))\<close>. The loop ends when
  \<open>exec\<close> returns \<open>null\<close>; a pattern that matched the empty string would keep it running,
  so the result is optional.
\<close>

partial_function (option) execLoop ::
  "(match \<Rightarrow> string) \<Rightarrow> RegExp \<Rightarrow> string \<Rightarrow> string list \<Rightarrow> (string list \<times> RegExp) option" where
  "execLoop pick R message acc =
     (case exec R message of
        (None, R') \<Rightarrow> Some (acc, R')
      | (Some m, R') \<Rightarrow> execLoop pick R' message (Set_add (pick m) acc))"

declare execLoop.simps [code]

definition extractIntelligence ::
  "string \<Rightarrow> Module \<Rightarrow> (ExtractedIntelligence \<times> Module) option" where
  "extractIntelligence message M =
     do {
       (phones, R1) \<leftarrow> execLoop normalizePhone (PHONE_NUMBER_REGEX M) message [];
       (banks, R2) \<leftarrow> execLoop match0 (BANK_ACCOUNT_REGEX M) message [];
       (upis, R3) \<leftarrow> execLoop match0 (UPI_ID_REGEX M) message [];
       (links, R4) \<leftarrow> execLoop match0 (PHISHING_LINK_REGEX M) message [];
       (emails, R5) \<leftarrow> execLoop match0 (EMAIL_ADDRESS_REGEX M) message [];
       (others, R6) \<leftarrow> execLoop match1 (GENERIC_ID_REGEX M) message [];
       Some (\<lparr> phoneNumbers = phones, bankAccounts = banks, upiIds = upis,
                phishingLinks = links, emailAddresses = emails, otherIds = others \<rparr>,
             \<lparr> PHONE_NUMBER_REGEX = R1, BANK_ACCOUNT_REGEX = R2, UPI_ID_REGEX = R3,
                PHISHING_LINK_REGEX = R4, EMAIL_ADDRESS_REGEX = R5, GENERIC_ID_REGEX = R6 \<rparr>)
     }"

section \<open>createFinalOutput\<close>

definition Array_from :: "string list \<Rightarrow> string list" where
  "Array_from s = s"

definition createFinalOutput ::
  "string \<Rightarrow> ConversationMessage list \<Rightarrow> bool \<Rightarrow> ExtractedIntelligence \<Rightarrow> jsnum \<Rightarrow>
   string \<Rightarrow> Scenario \<Rightarrow> FinalOutput" where
  "createFinalOutput sessionId' conversationHistory scamDetected' finalExtractedIntelligence
     engagementDurationSeconds' agentNotes' scenario =
     (let totalMessagesExchanged' = Finite (of_nat (length conversationHistory))
      in \<lparr> sessionId = Some sessionId',
           scamDetected = Some scamDetected',
           totalMessagesExchanged = Some totalMessagesExchanged',
           extractedIntelligence = Some
             \<lparr> phoneNumbers = Array_from (phoneNumbers finalExtractedIntelligence),
               bankAccounts = Array_from (bankAccounts finalExtractedIntelligence),
               upiIds = Array_from (upiIds finalExtractedIntelligence),
               phishingLinks = Array_from (phishingLinks finalExtractedIntelligence),
               emailAddresses = Array_from (emailAddresses finalExtractedIntelligence),
               otherIds = Array_from (otherIds finalExtractedIntelligence) \<rparr>,
           engagementMetrics = Some
             \<lparr> em_totalMessagesExchanged = Some totalMessagesExchanged',
               engagementDurationSeconds = Some engagementDurationSeconds' \<rparr>,
           agentNotes = Some agentNotes' \<rparr>)"

section \<open>evaluateFinalOutput\<close>

definition keyMapping :: "string \<Rightarrow> string option" where
  "keyMapping fakeKey =
     map_of [(''bankAccount'', ''bankAccounts''),
             (''upiId'', ''upiIds''),
             (''phoneNumber'', ''phoneNumbers''),
             (''phishingLink'', ''phishingLinks''),
             (''emailAddress'', ''emailAddresses'')] fakeKey"

text \<open>\<open>extracted[outputKey]\<close>: the array under one of the six names, otherwise \<open>undefined\<close>.\<close>

definition category :: "ExtractedIntelligence \<Rightarrow> string \<Rightarrow> string list option" where
  "category extracted outputKey =
     map_of [(''phoneNumbers'', phoneNumbers extracted),
             (''bankAccounts'', bankAccounts extracted),
             (''upiIds'', upiIds extracted),
             (''phishingLinks'', phishingLinks extracted),
             (''emailAddresses'', emailAddresses extracted),
             (''otherIds'', otherIds extracted)] outputKey"

text \<open>
  The loop over \<open>Object.entries(fakeData)\<close>, with the running
  \<open>score.intelligenceExtraction\<close>. Reading a category of a missing
  \<open>extractedIntelligence\<close> throws.
\<close>

fun intelligenceLoop ::
  "ExtractedIntelligence option \<Rightarrow> (string \<times> string option) list \<Rightarrow> rat \<Rightarrow> error + rat" where
  "intelligenceLoop extracted [] acc = Inr acc"
| "intelligenceLoop extracted ((fakeKey, None) # rest) acc = intelligenceLoop extracted rest acc"
| "intelligenceLoop extracted ((fakeKey, Some fakeValue) # rest) acc =
     (if fakeValue = [] then intelligenceLoop extracted rest acc
      else (case extracted of
              None \<Rightarrow> Inl TypeError
            | Some ex \<Rightarrow>
                (let outputKey = (case keyMapping fakeKey of Some k \<Rightarrow> k | None \<Rightarrow> fakeKey);
                     extractedValues = (case category ex outputKey of Some vs \<Rightarrow> vs | None \<Rightarrow> [])
                 in intelligenceLoop extracted rest
                      (if list_ex (\<lambda>v. String_includes v fakeValue) extractedValues
                       then acc + 10 else acc))))"

definition requiredFields :: "string list" where
  "requiredFields = [''sessionId'', ''scamDetected'', ''extractedIntelligence'',
                     ''engagementMetrics'', ''totalMessagesExchanged'']"

definition optionalFields :: "string list" where
  "optionalFields = [''agentNotes'']"

text \<open>\<open>field in finalOutput\<close>.\<close>

definition hasField :: "FinalOutput \<Rightarrow> string \<Rightarrow> bool" where
  "hasField finalOutput field =
     (if field = ''sessionId'' then sessionId finalOutput \<noteq> None
      else if field = ''scamDetected'' then scamDetected finalOutput \<noteq> None
      else if field = ''totalMessagesExchanged'' then totalMessagesExchanged finalOutput \<noteq> None
      else if field = ''extractedIntelligence'' then extractedIntelligence finalOutput \<noteq> None
      else if field = ''engagementMetrics'' then engagementMetrics finalOutput \<noteq> None
      else if field = ''agentNotes'' then agentNotes finalOutput \<noteq> None
      else False)"

text \<open>
  The truth value of \<open>finalOutput[field]\<close>: a string when it is not empty, a number when
  it is neither zero nor \<open>NaN\<close>, an object always, a missing property never.
\<close>

definition fieldTruthy :: "FinalOutput \<Rightarrow> string \<Rightarrow> bool" where
  "fieldTruthy finalOutput field =
     (if field = ''sessionId'' then
        (case sessionId finalOutput of None \<Rightarrow> False | Some s \<Rightarrow> s \<noteq> [])
      else if field = ''scamDetected'' then
        (case scamDetected finalOutput of None \<Rightarrow> False | Some b \<Rightarrow> b)
      else if field = ''totalMessagesExchanged'' then
        (case totalMessagesExchanged finalOutput of None \<Rightarrow> False | Some n \<Rightarrow> truthy_num n)
      else if field = ''extractedIntelligence'' then extractedIntelligence finalOutput \<noteq> None
      else if field = ''engagementMetrics'' then engagementMetrics finalOutput \<noteq> None
      else if field = ''agentNotes'' then
        (case agentNotes finalOutput of None \<Rightarrow> False | Some s \<Rightarrow> s \<noteq> [])
      else False)"

fun requiredLoop :: "FinalOutput \<Rightarrow> string list \<Rightarrow> rat \<Rightarrow> rat" where
  "requiredLoop finalOutput [] acc = acc"
| "requiredLoop finalOutput (field # rest) acc =
     requiredLoop finalOutput rest (if hasField finalOutput field then acc + 5 else acc)"

fun optionalLoop :: "FinalOutput \<Rightarrow> string list \<Rightarrow> rat \<Rightarrow> rat" where
  "optionalLoop finalOutput [] acc = acc"
| "optionalLoop finalOutput (field # rest) acc =
     optionalLoop finalOutput rest
       (if hasField finalOutput field \<and> fieldTruthy finalOutput field then acc + 5 / 2 else acc)"

definition evaluateFinalOutput ::
  "FinalOutput \<Rightarrow> Scenario \<Rightarrow> ConversationMessage list \<Rightarrow> error + ScoreBreakdown" where
  "evaluateFinalOutput finalOutput scenario conversationHistory =
     (let scamDetection' = (if scamDetected finalOutput = Some True then 20 else 0);
          extracted = extractedIntelligence finalOutput
      in case intelligenceLoop extracted (fakeData scenario) 0 of
           Inl e \<Rightarrow> Inl e
         | Inr raw \<Rightarrow>
             (let intelligenceExtraction' = min raw 40
              in case engagementMetrics finalOutput of
                   None \<Rightarrow> Inl TypeError
                 | Some metrics \<Rightarrow>
                     (let duration = num_or_zero (engagementDurationSeconds metrics);
                          messages = num_or_zero (em_totalMessagesExchanged metrics);
                          q1 = (if num_gt duration 0 then 5 else 0);
                          q2 = (if num_gt duration 60 then q1 + 5 else q1);
                          q3 = (if num_gt messages 0 then q2 + 5 else q2);
                          engagementQuality' = (if num_ge messages 5 then q3 + 5 else q3);
                          responseStructure' =
                            min (optionalLoop finalOutput optionalFields
                                   (requiredLoop finalOutput requiredFields 0)) 20
                      in Inr \<lparr> scamDetection = scamDetection',
                               intelligenceExtraction = intelligenceExtraction',
                               engagementQuality = engagementQuality',
                               responseStructure = responseStructure',
                               total = scamDetection' + intelligenceExtraction'
                                       + engagementQuality' + responseStructure' \<rparr>)))"

section \<open>The body of the scoring loop\<close>

text \<open>
  What one turn of the loop reads, \<open>extracted[keyMapping[fakeKey] || fakeKey] || []\<close>, and
  whether it adds its 10 points.
\<close>

definition extractedValuesFor :: "ExtractedIntelligence \<Rightarrow> string \<Rightarrow> string list" where
  "extractedValuesFor ex fakeKey =
     (case category ex (case keyMapping fakeKey of Some k \<Rightarrow> k | None \<Rightarrow> fakeKey) of
        Some vs \<Rightarrow> vs | None \<Rightarrow> [])"

fun awards :: "ExtractedIntelligence \<Rightarrow> string \<times> string option \<Rightarrow> bool" where
  "awards ex (fakeKey, None) = False"
| "awards ex (fakeKey, Some fakeValue) =
     (fakeValue \<noteq> [] \<and> list_ex (\<lambda>v. String_includes v fakeValue) (extractedValuesFor ex fakeKey))"

section \<open>The scoring rule as the specification words it\<close>

text \<open>
  The six categories of extracted intelligence, and the values an output holds in each.
\<close>

datatype Category =
  PhoneNumbers | BankAccounts | UpiIds | PhishingLinks | EmailAddresses | OtherIds

fun spec_values :: "ExtractedIntelligence \<Rightarrow> Category \<Rightarrow> string list" where
  "spec_values ex PhoneNumbers = phoneNumbers ex"
| "spec_values ex BankAccounts = bankAccounts ex"
| "spec_values ex UpiIds = upiIds ex"
| "spec_values ex PhishingLinks = phishingLinks ex"
| "spec_values ex EmailAddresses = emailAddresses ex"
| "spec_values ex OtherIds = otherIds ex"

text \<open>
  The category a key of \<open>fakeData\<close> corresponds to. A scenario names a planted bank
  account \<open>bankAccount\<close>, a planted UPI identifier \<open>upiId\<close>, a planted phone number
  \<open>phoneNumber\<close>, a planted link \<open>phishingLink\<close> and a planted email address
  \<open>emailAddress\<close>; a key that is the name of a category corresponds to that category;
  any other key corresponds to none.
\<close>

definition spec_categoryOf :: "string \<Rightarrow> Category option" where
  "spec_categoryOf key =
     (if key = ''bankAccount'' \<or> key = ''bankAccounts'' then Some BankAccounts
      else if key = ''upiId'' \<or> key = ''upiIds'' then Some UpiIds
      else if key = ''phoneNumber'' \<or> key = ''phoneNumbers'' then Some PhoneNumbers
      else if key = ''phishingLink'' \<or> key = ''phishingLinks'' then Some PhishingLinks
      else if key = ''emailAddress'' \<or> key = ''emailAddresses'' then Some EmailAddresses
      else if key = ''otherIds'' then Some OtherIds
      else None)"

text \<open>
  An entry earns credit when its planted value is defined, is not empty, and occurs inside
  some extracted value of the corresponding category.
\<close>

fun spec_credited :: "ExtractedIntelligence \<Rightarrow> string \<times> string option \<Rightarrow> bool" where
  "spec_credited ex (key, None) = False"
| "spec_credited ex (key, Some planted) =
     (planted \<noteq> [] \<and>
      (case spec_categoryOf key of
         None \<Rightarrow> False
       | Some cat \<Rightarrow> (\<exists>v \<in> set (spec_values ex cat). \<exists>before after. v = before @ planted @ after)))"

definition spec_intelligenceExtraction ::
  "ExtractedIntelligence \<Rightarrow> (string \<times> string option) list \<Rightarrow> rat" where
  "spec_intelligenceExtraction ex planted =
     min (10 * of_nat (length (filter (spec_credited ex) planted))) 40"

section \<open>Measures on patterns\<close>

text \<open>The least number of code units a match of the pattern consumes.\<close>

fun minlen :: "re \<Rightarrow> nat" where
  "minlen Eps = 0"
| "minlen (Lit a) = 1"
| "minlen (Cls items) = 1"
| "minlen WordB = 0"
| "minlen (Seq a b) = minlen a + minlen b"
| "minlen (Alt a b) = min (minlen a) (minlen b)"
| "minlen (Opt a) = 0"
| "minlen (Rep lo hi items) = lo"
| "minlen (Grp a) = minlen a"

text \<open>Every way through the pattern passes the capturing group.\<close>

fun captures :: "re \<Rightarrow> bool" where
  "captures (Grp a) = True"
| "captures (Seq a b) = (captures a \<or> captures b)"
| "captures (Alt a b) = (captures a \<and> captures b)"
| "captures r = False"

section \<open>Sessions\<close>

text \<open>The state of the module after \<open>extractIntelligence\<close> has run on each text in turn.\<close>

fun after_calls :: "string list \<Rightarrow> Module \<Rightarrow> Module option" where
  "after_calls [] M = Some M"
| "after_calls (t # ts) M =
     (case extractIntelligence t M of None \<Rightarrow> None | Some (r, M') \<Rightarrow> after_calls ts M')"

text \<open>A finished session of six messages and ninety seconds, and its scenario.\<close>

definition sample_history :: "ConversationMessage list" where
  "sample_history =
     replicate 6 \<lparr> sender = SCAMMER, msg_text = ''send it to 123456789012'', timestamp = ''t'' \<rparr>"

definition sample_intelligence :: ExtractedIntelligence where
  "sample_intelligence =
     \<lparr> phoneNumbers = [], bankAccounts = [''123456789012''], upiIds = [],
       phishingLinks = [], emailAddresses = [], otherIds = [] \<rparr>"

definition sample_scenario :: Scenario where
  "sample_scenario = \<lparr> fakeData = [(''bankAccount'', Some ''3456789'')] \<rparr>"

definition sample_output :: FinalOutput where
  "sample_output =
     createFinalOutput ''session-1'' sample_history True sample_intelligence (Finite 90) []
       sample_scenario"

text \<open>
  A second session: two planted values found in their categories, one that occurs only in
  another category, one that was not extracted, one empty, one undefined, and one under a
  key that names no category.
\<close>

definition mixed_intelligence :: ExtractedIntelligence where
  "mixed_intelligence =
     \<lparr> phoneNumbers = [''4155552671''], bankAccounts = [''123456789012''], upiIds = [],
       phishingLinks = [], emailAddresses = [''a.b@x.co''], otherIds = [] \<rparr>"

definition mixed_scenario :: Scenario where
  "mixed_scenario =
     \<lparr> fakeData = [(''bankAccount'', Some ''3456789''),
                   (''phoneNumber'', Some ''555''),
                   (''phishingLink'', Some ''123456789012''),
                   (''upiId'', Some ''rahul@upi''),
                   (''emailAddress'', Some []),
                   (''otherIds'', None),
                   (''note'', Some ''a.b'')] \<rparr>"

definition mixed_output :: FinalOutput where
  "mixed_output =
     createFinalOutput ''session-2'' sample_history True mixed_intelligence (Finite 90) []
       mixed_scenario"

definition sample_score :: ScoreBreakdown where
  "sample_score =
     \<lparr> scamDetection = 20, intelligenceExtraction = 10, engagementQuality = 20,
       responseStructure = 20, total = 70 \<rparr>"

section \<open>Strings\<close>

lemma String_includes_sublist: "String_includes s k \<longleftrightarrow> sublist k s"
  by (induction s) (simp_all add: sublist_Cons_right)

lemma toLowerCase_keywords: "map toLowerCase SCAM_KEYWORDS = SCAM_KEYWORDS"
  by (simp add: SCAM_KEYWORDS_def toLowerCase_def toLowerChar_def)

lemma toLowerChar_whitespace: "isWhitespace c \<Longrightarrow> toLowerChar c = c"
  by (auto simp: isWhitespace_def toLowerChar_def Let_def)

lemma keywords_start_visible:
  "list_all (\<lambda>k. k \<noteq> [] \<and> \<not> isWhitespace (hd k)) SCAM_KEYWORDS"
  by (simp add: SCAM_KEYWORDS_def isWhitespace_def)

section \<open>The keyword classifier\<close>

lemma detectScam_False_iff:
  "detectScam message False \<longleftrightarrow>
     (\<exists>keyword \<in> set SCAM_KEYWORDS. sublist keyword (toLowerCase message))"
proof -
  have "list_ex (\<lambda>k. String_includes (toLowerCase message) (toLowerCase k)) SCAM_KEYWORDS
        = list_ex (\<lambda>k. String_includes (toLowerCase message) k) (map toLowerCase SCAM_KEYWORDS)"
    by (simp add: list_ex_iff)
  then show ?thesis
    by (simp add: detectScam_def toLowerCase_keywords String_includes_sublist list_ex_iff)
qed

lemma whitespace_no_keyword:
  assumes ws: "\<forall>c \<in> set message. isWhitespace c"
  shows "\<not> detectScam message False"
proof
  assume "detectScam message False"
  then obtain k where k: "k \<in> set SCAM_KEYWORDS" and sub: "sublist k (toLowerCase message)"
    by (auto simp: detectScam_False_iff)
  from k keywords_start_visible have ne: "k \<noteq> []" and vis: "\<not> isWhitespace (hd k)"
    by (auto simp: list_all_iff)
  from sub have "set k \<subseteq> set (toLowerCase message)" by (rule set_mono_sublist)
  with ne have "hd k \<in> set (toLowerCase message)" by (metis hd_in_set subsetD)
  then obtain c where c: "c \<in> set message" and hk: "hd k = toLowerChar c"
    by (auto simp: toLowerCase_def)
  from c ws have "isWhitespace c" by blast
  with hk toLowerChar_whitespace have "isWhitespace (hd k)" by simp
  with vis show False by contradiction
qed

text \<open>
  Claim C4. Whatever the message text, \<open>detectScam\<close> called with the flag already true
  returns true: once a session is flagged, no later call can clear the flag.
\<close>

theorem detectScam_latch: "detectScam message True = True"
  by (simp add: detectScam_def)

theorem detectScam_latch_witness: "detectScam ''thank you, goodbye'' True = True"
  by (rule detectScam_latch)

text \<open>
  Claim C5. With the flag false, \<open>detectScam\<close> returns true exactly when the lower-cased
  message text has one of the keyword phrases as a substring; a text that is empty or made
  of white space only gives false.
\<close>

theorem detectScam_unflagged:
  "(detectScam message False \<longleftrightarrow>
      (\<exists>keyword \<in> set SCAM_KEYWORDS. \<exists>before after.
          toLowerCase message = before @ keyword @ after))
   \<and> ((\<forall>c \<in> set message. isWhitespace c) \<longrightarrow> \<not> detectScam message False)"
  using detectScam_False_iff[of message] whitespace_no_keyword[of message]
  by (auto simp: sublist_def)

theorem detectScam_unflagged_witness:
  "list_all isWhitespace ''   '' \<and> \<not> detectScam ''   '' False
   \<and> \<not> detectScam [] False
   \<and> ''urgent'' \<in> set SCAM_KEYWORDS
   \<and> toLowerCase ''URGENT: pay now'' = [] @ ''urgent'' @ '': pay now''
   \<and> detectScam ''URGENT: pay now'' False"
proof -
  have ws: "\<forall>c \<in> set ''   ''. isWhitespace c" by (simp add: isWhitespace_def)
  have kw: "''urgent'' \<in> set SCAM_KEYWORDS" by (simp add: SCAM_KEYWORDS_def)
  have low: "toLowerCase ''URGENT: pay now'' = [] @ ''urgent'' @ '': pay now''"
    by code_simp
  from detectScam_unflagged[of "''   ''"] ws have a: "\<not> detectScam ''   '' False" by blast
  have "\<forall>c \<in> set []. isWhitespace c" by simp
  with detectScam_unflagged[of "[]"] have b: "\<not> detectScam [] False" by blast
  from detectScam_unflagged[of "''URGENT: pay now''"] kw low
  have c: "detectScam ''URGENT: pay now'' False" by blast
  from ws have "list_all isWhitespace ''   ''" by (simp add: list_all_iff)
  with a b kw low c show ?thesis by blast
qed

section \<open>The scorer\<close>

lemma intelligenceLoop_step:
  "intelligenceLoop (Some ex) (entry # rest) acc =
     intelligenceLoop (Some ex) rest (if awards ex entry then acc + 10 else acc)"
proof (cases entry)
  case (Pair fakeKey fakeValue)
  show ?thesis
  proof (cases fakeValue)
    case None
    with Pair show ?thesis by simp
  next
    case (Some planted)
    with Pair show ?thesis
      by (simp add: Let_def extractedValuesFor_def)
  qed
qed

lemma intelligenceLoop_count:
  "intelligenceLoop (Some ex) fd acc = Inr (acc + 10 * of_nat (length (filter (awards ex) fd)))"
proof (induction fd arbitrary: acc)
  case Nil
  show ?case by simp
next
  case (Cons entry rest)
  show ?case
    unfolding intelligenceLoop_step Cons.IH by (simp add: algebra_simps)
qed

lemma intelligenceLoop_grows: "intelligenceLoop extracted fd acc = Inr r \<Longrightarrow> acc \<le> r"
proof (induction extracted fd acc rule: intelligenceLoop.induct)
  case (1 extracted acc)
  then show ?case by simp
next
  case (2 extracted fakeKey rest acc)
  then show ?case by simp
next
  case (3 extracted fakeKey fakeValue rest acc)
  show ?case
  proof (cases "fakeValue = []")
    case True
    with 3 show ?thesis by simp
  next
    case False
    show ?thesis
    proof (cases extracted)
      case None
      with False "3.prems" show ?thesis by simp
    next
      case (Some ex)
      with False "3.prems" "3.IH"(2)[OF False Some refl refl] show ?thesis
        by (auto simp: Let_def split: if_splits)
    qed
  qed
qed

lemma requiredLoop_grows: "acc \<le> requiredLoop fo fs acc"
proof (induction fs arbitrary: acc)
  case Nil
  show ?case by simp
next
  case (Cons f fs)
  have "acc \<le> (if hasField fo f then acc + 5 else acc)" by simp
  also have "\<dots> \<le> requiredLoop fo fs (if hasField fo f then acc + 5 else acc)" by (rule Cons)
  finally show ?case by simp
qed

lemma optionalLoop_grows: "acc \<le> optionalLoop fo fs acc"
proof (induction fs arbitrary: acc)
  case Nil
  show ?case by simp
next
  case (Cons f fs)
  let ?acc' = "if hasField fo f \<and> fieldTruthy fo f then acc + 5 / 2 else acc"
  have "acc \<le> ?acc'" by simp
  also have "\<dots> \<le> optionalLoop fo fs ?acc'" by (rule Cons)
  finally show ?case by simp
qed

lemma structure_nonneg: "0 \<le> optionalLoop fo optionalFields (requiredLoop fo requiredFields 0)"
  using requiredLoop_grows[of 0 fo requiredFields]
    optionalLoop_grows[of "requiredLoop fo requiredFields 0" fo optionalFields]
  by linarith

lemma evaluate_returns:
  assumes "extractedIntelligence fo = Some ex" and "engagementMetrics fo = Some m"
  shows "\<exists>s. evaluateFinalOutput fo sc h = Inr s"
  using assms by (simp add: evaluateFinalOutput_def intelligenceLoop_count Let_def)

lemma evaluate_bounds:
  assumes "evaluateFinalOutput fo sc h = Inr s"
  shows "0 \<le> intelligenceExtraction s \<and> intelligenceExtraction s \<le> 40
       \<and> 0 \<le> responseStructure s \<and> responseStructure s \<le> 20
       \<and> 0 \<le> engagementQuality s \<and> engagementQuality s \<le> 20
       \<and> (scamDetection s = 0 \<or> scamDetection s = 20)
       \<and> 0 \<le> total s \<and> total s \<le> 100"
proof -
  from assms obtain raw m where
    raw: "intelligenceLoop (extractedIntelligence fo) (fakeData sc) 0 = Inr raw"
    and m: "engagementMetrics fo = Some m"
    by (auto simp: evaluateFinalOutput_def Let_def split: sum.splits option.splits)
  from raw have r0: "0 \<le> raw" by (rule intelligenceLoop_grows)
  note st = structure_nonneg[of fo]
  from assms raw m r0 st show ?thesis
    by (auto simp: evaluateFinalOutput_def Let_def min_def)
qed

lemma sample_fields:
  "sessionId sample_output = Some ''session-1''"
  "scamDetected sample_output = Some True"
  "totalMessagesExchanged sample_output = Some (Finite 6)"
  "extractedIntelligence sample_output = Some sample_intelligence"
  "engagementMetrics sample_output =
     Some \<lparr> em_totalMessagesExchanged = Some (Finite 6),
            engagementDurationSeconds = Some (Finite 90) \<rparr>"
  "agentNotes sample_output = Some []"
  by (simp_all add: sample_output_def createFinalOutput_def sample_history_def
      sample_intelligence_def Array_from_def Let_def)

lemma sample_planted: "sublist ''3456789'' ''123456789012''"
  unfolding String_includes_sublist[symmetric] by simp

lemma sample_evaluates:
  "evaluateFinalOutput sample_output sample_scenario h = Inr sample_score"
proof -
  have cr: "awards sample_intelligence (''bankAccount'', Some ''3456789'')"
    using sample_planted
    by (simp add: extractedValuesFor_def keyMapping_def category_def sample_intelligence_def
        String_includes_sublist list_ex_iff)
  have "intelligenceLoop (Some sample_intelligence) (fakeData sample_scenario) 0 =
          Inr (0 + 10 * of_nat (length (filter (awards sample_intelligence)
                                          (fakeData sample_scenario))))"
    by (rule intelligenceLoop_count)
  also have "\<dots> = Inr 10"
    using cr by (simp add: sample_scenario_def)
  finally show ?thesis
    by (simp add: evaluateFinalOutput_def sample_fields Let_def requiredFields_def
        optionalFields_def hasField_def fieldTruthy_def sample_score_def)
qed

text \<open>
  Claim C1. Whatever the final output, the scenario and the conversation, the score
  breakdown that \<open>evaluateFinalOutput\<close> returns has \<open>intelligenceExtraction\<close> between 0
  and 40, \<open>responseStructure\<close> between 0 and 20, \<open>engagementQuality\<close> between 0 and 20,
  \<open>scamDetection\<close> 0 or 20, and \<open>total\<close> between 0 and 100. A breakdown is returned
  whenever the output has its \<open>extractedIntelligence\<close> and \<open>engagementMetrics\<close>.
\<close>

theorem evaluateFinalOutput_caps:
  "(extractedIntelligence fo \<noteq> None \<and> engagementMetrics fo \<noteq> None
      \<longrightarrow> (\<exists>s. evaluateFinalOutput fo sc h = Inr s))
   \<and> (\<forall>s. evaluateFinalOutput fo sc h = Inr s \<longrightarrow>
          0 \<le> intelligenceExtraction s \<and> intelligenceExtraction s \<le> 40
        \<and> 0 \<le> responseStructure s \<and> responseStructure s \<le> 20
        \<and> 0 \<le> engagementQuality s \<and> engagementQuality s \<le> 20
        \<and> (scamDetection s = 0 \<or> scamDetection s = 20)
        \<and> 0 \<le> total s \<and> total s \<le> 100)"
proof (rule conjI)
  show "extractedIntelligence fo \<noteq> None \<and> engagementMetrics fo \<noteq> None
      \<longrightarrow> (\<exists>s. evaluateFinalOutput fo sc h = Inr s)"
  proof
    assume "extractedIntelligence fo \<noteq> None \<and> engagementMetrics fo \<noteq> None"
    then obtain ex m where "extractedIntelligence fo = Some ex" "engagementMetrics fo = Some m"
      by auto
    then show "\<exists>s. evaluateFinalOutput fo sc h = Inr s" by (rule evaluate_returns)
  qed
next
  show "\<forall>s. evaluateFinalOutput fo sc h = Inr s \<longrightarrow>
          0 \<le> intelligenceExtraction s \<and> intelligenceExtraction s \<le> 40
        \<and> 0 \<le> responseStructure s \<and> responseStructure s \<le> 20
        \<and> 0 \<le> engagementQuality s \<and> engagementQuality s \<le> 20
        \<and> (scamDetection s = 0 \<or> scamDetection s = 20)
        \<and> 0 \<le> total s \<and> total s \<le> 100"
    using evaluate_bounds[of fo sc h] by blast
qed

theorem evaluateFinalOutput_caps_witness:
  "extractedIntelligence sample_output \<noteq> None \<and> engagementMetrics sample_output \<noteq> None
   \<and> evaluateFinalOutput sample_output sample_scenario sample_history = Inr sample_score
   \<and> 0 \<le> intelligenceExtraction sample_score \<and> intelligenceExtraction sample_score \<le> 40
   \<and> 0 \<le> responseStructure sample_score \<and> responseStructure sample_score \<le> 20
   \<and> 0 \<le> engagementQuality sample_score \<and> engagementQuality sample_score \<le> 20
   \<and> (scamDetection sample_score = 0 \<or> scamDetection sample_score = 20)
   \<and> 0 \<le> total sample_score \<and> total sample_score \<le> 100"
proof -
  have present: "extractedIntelligence sample_output \<noteq> None \<and> engagementMetrics sample_output \<noteq> None"
    by (simp add: sample_fields)
  have run: "evaluateFinalOutput sample_output sample_scenario sample_history = Inr sample_score"
    by (rule sample_evaluates)
  from evaluateFinalOutput_caps[of sample_output sample_scenario sample_history] present run
  show ?thesis by blast
qed

text \<open>
  The lookup of the loop finds the category the key corresponds to: the five scenario keys
  through \<open>keyMapping\<close>, a category's own name directly, and nothing under any other key.
\<close>

lemma extractedValuesFor_corresponds:
  "extractedValuesFor ex fakeKey =
     (case spec_categoryOf fakeKey of None \<Rightarrow> [] | Some cat \<Rightarrow> spec_values ex cat)"
  by (simp add: extractedValuesFor_def keyMapping_def category_def spec_categoryOf_def)

lemma awards_as_specified: "awards ex entry = spec_credited ex entry"
proof (cases entry)
  case (Pair fakeKey fakeValue)
  show ?thesis
  proof (cases fakeValue)
    case None
    with Pair show ?thesis by simp
  next
    case (Some planted)
    with Pair show ?thesis
      by (auto simp: extractedValuesFor_corresponds String_includes_sublist list_ex_iff
          sublist_def split: option.splits)
  qed
qed

lemma mixed_fields:
  "extractedIntelligence mixed_output = Some mixed_intelligence"
  "engagementMetrics mixed_output =
     Some \<lparr> em_totalMessagesExchanged = Some (Finite 6),
            engagementDurationSeconds = Some (Finite 90) \<rparr>"
  by (simp_all add: mixed_output_def createFinalOutput_def sample_history_def
      mixed_intelligence_def Array_from_def Let_def)

text \<open>
  Claim C2. The \<open>intelligenceExtraction\<close> score is 10 points for each entry of
  \<open>scenario.fakeData\<close> whose planted value is defined and not empty and is a substring of
  some extracted value of the corresponding category, summed over the entries and then
  clamped to 40; an entry without a planted value adds and removes nothing.
\<close>

theorem intelligenceExtraction_as_specified:
  assumes "extractedIntelligence fo = Some ex" and "engagementMetrics fo = Some m"
  shows "\<exists>s. evaluateFinalOutput fo sc h = Inr s
           \<and> intelligenceExtraction s = spec_intelligenceExtraction ex (fakeData sc)"
proof -
  have same: "filter (awards ex) (fakeData sc) = filter (spec_credited ex) (fakeData sc)"
    by (rule filter_cong) (simp_all add: awards_as_specified)
  have "intelligenceLoop (Some ex) (fakeData sc) 0 =
          Inr (0 + 10 * of_nat (length (filter (awards ex) (fakeData sc))))"
    by (rule intelligenceLoop_count)
  with assms same show ?thesis
    by (simp add: evaluateFinalOutput_def Let_def spec_intelligenceExtraction_def)
qed

theorem intelligenceExtraction_as_specified_witness:
  "spec_intelligenceExtraction mixed_intelligence (fakeData mixed_scenario) = 20
   \<and> map_sum id intelligenceExtraction
       (evaluateFinalOutput mixed_output mixed_scenario sample_history) = Inr 20"
proof -
  have bank: "\<exists>before after. ''123456789012'' = before @ ''3456789'' @ after"
  proof (intro exI)
    show "''123456789012'' = ''12'' @ ''3456789'' @ ''012''" by simp
  qed
  have phone: "\<exists>before after. ''4155552671'' = before @ ''555'' @ after"
  proof (intro exI)
    show "''4155552671'' = ''415'' @ ''555'' @ ''2671''" by simp
  qed
  have c1: "spec_credited mixed_intelligence (''bankAccount'', Some ''3456789'')"
    using bank by (simp add: spec_categoryOf_def mixed_intelligence_def)
  have c2: "spec_credited mixed_intelligence (''phoneNumber'', Some ''555'')"
    using phone by (simp add: spec_categoryOf_def mixed_intelligence_def)
  have c3: "\<not> spec_credited mixed_intelligence (''phishingLink'', Some ''123456789012'')"
    by (simp add: spec_categoryOf_def mixed_intelligence_def)
  have c4: "\<not> spec_credited mixed_intelligence (''upiId'', Some ''rahul@upi'')"
    by (simp add: spec_categoryOf_def mixed_intelligence_def)
  have c5: "\<not> spec_credited mixed_intelligence (''emailAddress'', Some [])"
    by simp
  have c6: "\<not> spec_credited mixed_intelligence (''otherIds'', None)"
    by simp
  have c7: "\<not> spec_credited mixed_intelligence (''note'', Some ''a.b'')"
    by (simp add: spec_categoryOf_def)
  have spec: "spec_intelligenceExtraction mixed_intelligence (fakeData mixed_scenario) = 20"
    unfolding spec_intelligenceExtraction_def mixed_scenario_def
    using c1 c2 c3 c4 c5 c6 c7 by simp
  from intelligenceExtraction_as_specified[OF mixed_fields(1) mixed_fields(2),
      of mixed_scenario sample_history]
  obtain s where "evaluateFinalOutput mixed_output mixed_scenario sample_history = Inr s"
    and "intelligenceExtraction s
           = spec_intelligenceExtraction mixed_intelligence (fakeData mixed_scenario)"
    by blast
  with spec show ?thesis by simp
qed

text \<open>
  Claim C7. A final output with the five required fields, no or empty \<open>agentNotes\<close>, a
  duration of 90 seconds, 6 messages in its engagement metrics and \<open>scamDetected\<close> true,
  scored against a scenario whose only planted value is a (non-empty) bank account that
  is a substring of an extracted bank account, gets \<open>scamDetection\<close> 20,
  \<open>intelligenceExtraction\<close> 10, \<open>engagementQuality\<close> 20, \<open>responseStructure\<close> 20 and
  \<open>total\<close> 70.
\<close>

theorem evaluateFinalOutput_scenario:
  assumes "sessionId fo = Some sid" and "scamDetected fo = Some True"
    and "totalMessagesExchanged fo = Some n" and "extractedIntelligence fo = Some ex"
    and "engagementMetrics fo = Some \<lparr> em_totalMessagesExchanged = Some (Finite 6),
                                       engagementDurationSeconds = Some (Finite 90) \<rparr>"
    and "agentNotes fo = None \<or> agentNotes fo = Some []"
    and "fakeData sc = [(''bankAccount'', Some planted)]" and "planted \<noteq> []"
    and "\<exists>v \<in> set (bankAccounts ex). sublist planted v"
  shows "evaluateFinalOutput fo sc h =
           Inr \<lparr> scamDetection = 20, intelligenceExtraction = 10, engagementQuality = 20,
                 responseStructure = 20, total = 70 \<rparr>"
proof -
  have cat: "extractedValuesFor ex ''bankAccount'' = bankAccounts ex"
    by (simp add: extractedValuesFor_def keyMapping_def category_def)
  have cr: "awards ex (''bankAccount'', Some planted)"
    using assms(8,9) by (simp add: cat String_includes_sublist list_ex_iff)
  have "intelligenceLoop (Some ex) (fakeData sc) 0 =
          Inr (0 + 10 * of_nat (length (filter (awards ex) (fakeData sc))))"
    by (rule intelligenceLoop_count)
  also have "\<dots> = Inr 10"
    unfolding assms(7) using cr by simp
  finally have "intelligenceLoop (Some ex) (fakeData sc) 0 = Inr 10" .
  with assms(1-6) show ?thesis
    by (auto simp: evaluateFinalOutput_def Let_def requiredFields_def
      optionalFields_def hasField_def fieldTruthy_def)
qed

theorem evaluateFinalOutput_scenario_witness:
  "evaluateFinalOutput sample_output sample_scenario sample_history =
     Inr \<lparr> scamDetection = 20, intelligenceExtraction = 10, engagementQuality = 20,
           responseStructure = 20, total = 70 \<rparr>"
proof -
  have nts: "agentNotes sample_output = None \<or> agentNotes sample_output = Some []"
    by (simp add: sample_fields)
  have fd: "fakeData sample_scenario = [(''bankAccount'', Some ''3456789'')]"
    by (simp add: sample_scenario_def)
  have ne: "''3456789'' \<noteq> []" by simp
  have hit: "\<exists>v \<in> set (bankAccounts sample_intelligence). sublist ''3456789'' v"
    using sample_planted by (simp add: sample_intelligence_def)
  show ?thesis
    by (rule evaluateFinalOutput_scenario[OF sample_fields(1) sample_fields(2) sample_fields(3)
          sample_fields(4) sample_fields(5) nts fd ne hit])
qed

text \<open>
  Claim C8. When the five required fields are present, the \<open>responseStructure\<close> score is
  exactly 20, whether \<open>agentNotes\<close> is absent, empty or filled: the required fields give 25
  before the clamp.
\<close>

theorem responseStructure_full:
  assumes "sessionId fo = Some sid" and "scamDetected fo = Some b"
    and "extractedIntelligence fo = Some ex" and "engagementMetrics fo = Some m"
    and "totalMessagesExchanged fo = Some n"
  shows "\<exists>s. evaluateFinalOutput fo sc h = Inr s \<and> responseStructure s = 20"
  using assms
  by (simp add: evaluateFinalOutput_def intelligenceLoop_count Let_def requiredFields_def
      optionalFields_def hasField_def fieldTruthy_def)

theorem responseStructure_full_witness:
  "(\<exists>s. evaluateFinalOutput sample_output sample_scenario sample_history = Inr s
        \<and> responseStructure s = 20)
   \<and> (\<exists>s. evaluateFinalOutput (sample_output\<lparr>agentNotes := Some ''asked for the account''\<rparr>)
             sample_scenario sample_history = Inr s
        \<and> responseStructure s = 20)"
proof
  show "\<exists>s. evaluateFinalOutput sample_output sample_scenario sample_history = Inr s
        \<and> responseStructure s = 20"
    by (rule responseStructure_full[OF sample_fields(1) sample_fields(2) sample_fields(4)
          sample_fields(5) sample_fields(3)])
next
  let ?fo = "sample_output\<lparr>agentNotes := Some ''asked for the account''\<rparr>"
  have "sessionId ?fo = Some ''session-1''" "scamDetected ?fo = Some True"
    "extractedIntelligence ?fo = Some sample_intelligence"
    "engagementMetrics ?fo =
       Some \<lparr> em_totalMessagesExchanged = Some (Finite 6),
              engagementDurationSeconds = Some (Finite 90) \<rparr>"
    "totalMessagesExchanged ?fo = Some (Finite 6)"
    by (simp_all add: sample_fields)
  then show "\<exists>s. evaluateFinalOutput ?fo sample_scenario sample_history = Inr s
        \<and> responseStructure s = 20"
    by (rule responseStructure_full)
qed

text \<open>
  Claim C9. The result of \<open>evaluateFinalOutput\<close> does not depend on the conversation
  history it is given: two histories give the same result for the same final output and
  scenario.
\<close>

theorem evaluateFinalOutput_ignores_history:
  "evaluateFinalOutput fo sc H1 = evaluateFinalOutput fo sc H2"
  by (simp add: evaluateFinalOutput_def)

theorem evaluateFinalOutput_ignores_history_witness:
  "evaluateFinalOutput sample_output sample_scenario [] =
     evaluateFinalOutput sample_output sample_scenario sample_history"
  by (rule evaluateFinalOutput_ignores_history)

section \<open>The transcript summarizer\<close>

text \<open>
  Claim C10. In the final output that \<open>createFinalOutput\<close> returns, the top-level
  \<open>totalMessagesExchanged\<close> and the one inside \<open>engagementMetrics\<close> are both the length of
  the conversation history, and the output is the same for every scenario argument.
\<close>

theorem createFinalOutput_counts:
  "totalMessagesExchanged (createFinalOutput sid history sd ei d notes sc)
     = Some (Finite (of_nat (length history)))
   \<and> map_option em_totalMessagesExchanged
       (engagementMetrics (createFinalOutput sid history sd ei d notes sc))
     = Some (Some (Finite (of_nat (length history))))
   \<and> createFinalOutput sid history sd ei d notes sc
     = createFinalOutput sid history sd ei d notes sc'"
  by (simp add: createFinalOutput_def Let_def)

theorem createFinalOutput_counts_witness:
  "totalMessagesExchanged sample_output = Some (Finite 6)
   \<and> map_option em_totalMessagesExchanged (engagementMetrics sample_output)
     = Some (Some (Finite 6))
   \<and> sample_output
     = createFinalOutput ''session-1'' sample_history True sample_intelligence (Finite 90) []
         \<lparr> fakeData = [] \<rparr>"
proof -
  have len: "length sample_history = 6" by (simp add: sample_history_def)
  note inst = createFinalOutput_counts[of "''session-1''" sample_history True
      sample_intelligence "Finite 90" "[]" sample_scenario "\<lparr> fakeData = [] \<rparr>",
      unfolded len of_nat_numeral]
  show ?thesis unfolding sample_output_def by (rule inst)
qed

section \<open>The matcher\<close>

text \<open>A match from position \<open>i\<close> ends inside the text, at least \<open>minlen\<close> further on.\<close>

lemma rmatch_range:
  "(j, c) \<in> set (rmatch ic s r (i, cap)) \<Longrightarrow> i \<le> length s \<Longrightarrow>
     i + minlen r \<le> j \<and> j \<le> length s"
proof (induction r arbitrary: i cap j c)
  case Eps
  then show ?case by simp
next
  case (Lit a)
  then show ?case by (auto split: if_splits)
next
  case (Cls items)
  then show ?case by (auto split: if_splits)
next
  case WordB
  then show ?case by (auto split: if_splits)
next
  case (Seq a b)
  from Seq.prems(1) obtain k c' where
    mid: "(k, c') \<in> set (rmatch ic s a (i, cap))" and fin: "(j, c) \<in> set (rmatch ic s b (k, c'))"
    by auto
  from Seq.IH(1)[OF mid Seq.prems(2)] have k: "i + minlen a \<le> k" "k \<le> length s" by simp_all
  from Seq.IH(2)[OF fin k(2)] have "k + minlen b \<le> j" "j \<le> length s" by simp_all
  with k show ?case by simp
next
  case (Alt a b)
  from Alt.prems(1)
  have "(j, c) \<in> set (rmatch ic s a (i, cap)) \<or> (j, c) \<in> set (rmatch ic s b (i, cap))"
    by simp
  then show ?case
  proof
    assume "(j, c) \<in> set (rmatch ic s a (i, cap))"
    from Alt.IH(1)[OF this Alt.prems(2)] show ?thesis by (auto simp: min_def)
  next
    assume "(j, c) \<in> set (rmatch ic s b (i, cap))"
    from Alt.IH(2)[OF this Alt.prems(2)] show ?thesis by (auto simp: min_def)
  qed
next
  case (Opt a)
  from Opt.prems(1) have "(j, c) \<in> set (rmatch ic s a (i, cap)) \<or> (j, c) = (i, cap)"
    by auto
  then show ?case
  proof
    assume "(j, c) \<in> set (rmatch ic s a (i, cap))"
    from Opt.IH[OF this Opt.prems(2)] show ?thesis by simp
  next
    assume "(j, c) = (i, cap)"
    with Opt.prems(2) show ?thesis by simp
  qed
next
  case (Rep lo hi items)
  define run where "run = length (takeWhile (class_match ic items) (drop i s))"
  have run: "run \<le> length s - i"
    unfolding run_def using length_takeWhile_le[of "class_match ic items" "drop i s"] by simp
  from Rep.prems(1) obtain k where "j = i + k" "lo \<le> k" "k \<le> run"
    by (auto simp: Let_def run_def split: if_splits option.splits)
  with run Rep.prems(2) show ?case by simp
next
  case (Grp a)
  from Grp.prems(1) obtain c' where "(j, c') \<in> set (rmatch ic s a (i, cap))"
    by auto
  from Grp.IH[OF this Grp.prems(2)] show ?case by simp
qed

lemma search_found:
  "search ic r s i = Some (b, e, cap) \<Longrightarrow>
     i \<le> b \<and> b \<le> length s \<and> (e, cap) \<in> set (rmatch ic s r (b, None))"
proof (induction ic r s i rule: search.induct)
  case (1 ic r s i)
  show ?case
  proof (cases "length s < i")
    case True
    with "1.prems" show ?thesis by (simp add: search.simps[of ic r s i])
  next
    case False
    show ?thesis
    proof (cases "rmatch ic s r (i, None)")
      case Nil
      with False "1.prems" have "search ic r s (Suc i) = Some (b, e, cap)"
        by (simp add: search.simps[of ic r s i])
      from "1.IH"[OF False Nil this] show ?thesis by simp
    next
      case (Cons st rest)
      with False "1.prems" have "st = (e, cap)" "b = i"
        by (simp_all add: search.simps[of ic r s i])
      with Cons False show ?thesis by simp
    qed
  qed
qed

lemma search_advances:
  assumes "search ic r s i = Some (b, e, cap)"
  shows "i + minlen r \<le> e \<and> e \<le> length s"
proof -
  from search_found[OF assms] have b: "i \<le> b" "b \<le> length s"
    and m: "(e, cap) \<in> set (rmatch ic s r (b, None))" by simp_all
  from rmatch_range[OF m b(2)] b(1) show ?thesis by simp
qed

text \<open>Once the group has a span, it keeps one; a pattern that passes the group sets it.\<close>

lemma rmatch_keeps_group:
  "(j, c) \<in> set (rmatch ic s r (i, Some g)) \<Longrightarrow> c \<noteq> None"
proof (induction r arbitrary: i g j c)
  case (Seq a b)
  from Seq.prems obtain k c' where
    mid: "(k, c') \<in> set (rmatch ic s a (i, Some g))" and fin: "(j, c) \<in> set (rmatch ic s b (k, c'))"
    by auto
  from Seq.IH(1)[OF mid] obtain g' where "c' = Some g'" by auto
  with fin Seq.IH(2) show ?case by blast
next
  case (Rep lo hi items)
  then show ?case by (auto simp: Let_def split: if_splits)
qed (auto split: if_splits)

lemma rmatch_captures:
  "captures r \<Longrightarrow> (j, c) \<in> set (rmatch ic s r (i, cap)) \<Longrightarrow> c \<noteq> None"
proof (induction r arbitrary: i cap j c)
  case (Seq a b)
  from Seq.prems(2) obtain k c' where
    mid: "(k, c') \<in> set (rmatch ic s a (i, cap))" and fin: "(j, c) \<in> set (rmatch ic s b (k, c'))"
    by auto
  show ?case
  proof (cases "captures a")
    case True
    from Seq.IH(1)[OF True mid] obtain g' where "c' = Some g'" by auto
    with fin show ?thesis by (auto dest: rmatch_keeps_group)
  next
    case False
    with Seq.prems(1) have "captures b" by simp
    from Seq.IH(2)[OF this fin] show ?thesis .
  qed
next
  case (Alt a b)
  then show ?case by auto
next
  case (Grp a)
  then show ?case by auto
qed simp_all

lemma generic_id_group:
  assumes "source R = GENERIC_ID_pattern" and "exec R s = (Some m, R')"
  shows "snd m \<noteq> None"
proof -
  from assms(2) obtain b e cap where
    found: "search (ignoreCase R) (source R) s (lastIndex R) = Some (b, e, cap)"
    and m: "m = (substring s b e, map_option (\<lambda>(x, y). substring s x y) cap)"
    by (auto simp: exec_def split: option.splits)
  have "captures GENERIC_ID_pattern" by (simp add: GENERIC_ID_pattern_def)
  with search_found[OF found] assms(1) have "cap \<noteq> None"
    by (auto dest: rmatch_captures)
  with m show ?thesis by simp
qed

section \<open>The entity extractor\<close>

text \<open>
  The loop over a pattern that consumes at least one code unit ends, and leaves
  \<open>lastIndex\<close> at 0.
\<close>

lemma execLoop_returns:
  assumes pos: "0 < minlen (source R)"
  shows "\<exists>acc'. execLoop pick R message acc = Some (acc', R\<lparr>lastIndex := 0\<rparr>)"
  using pos
proof (induction "Suc (length message) - lastIndex R" arbitrary: R acc rule: less_induct)
  case less
  show ?case
  proof (cases "search (ignoreCase R) (source R) message (lastIndex R)")
    case None
    then show ?thesis
      by (subst execLoop.simps) (simp add: exec_def)
  next
    case (Some found)
    obtain b e cap where found: "found = (b, e, cap)" by (cases found) auto
    from search_advances[OF Some[unfolded found]] less.prems
    have e: "lastIndex R < e" "e \<le> length message" by simp_all
    let ?R' = "R\<lparr>lastIndex := e\<rparr>"
    have dec: "Suc (length message) - lastIndex ?R' < Suc (length message) - lastIndex R"
      using e by simp
    have "0 < minlen (source ?R')" using less.prems by simp
    from less.hyps[OF dec this] obtain acc' where
      "execLoop pick ?R' message
         (Set_add (pick (substring message b e,
                         map_option (\<lambda>(x, y). substring message x y) cap)) acc)
       = Some (acc', ?R'\<lparr>lastIndex := 0\<rparr>)" by blast
    then show ?thesis
      by (subst execLoop.simps) (simp add: exec_def Some found)
  qed
qed

lemma patterns_consume:
  "0 < minlen PHONE_NUMBER_pattern" "0 < minlen BANK_ACCOUNT_pattern"
  "0 < minlen UPI_ID_pattern" "0 < minlen PHISHING_LINK_pattern"
  "0 < minlen EMAIL_ADDRESS_pattern" "0 < minlen GENERIC_ID_pattern"
  by (simp_all add: PHONE_NUMBER_pattern_def BANK_ACCOUNT_pattern_def UPI_ID_pattern_def
      PHISHING_LINK_pattern_def EMAIL_ADDRESS_pattern_def GENERIC_ID_pattern_def lits_def)

lemma extractIntelligence_restores:
  "\<exists>r. extractIntelligence message module_loaded = Some (r, module_loaded)"
proof -
  let ?M = module_loaded
  obtain a1 where 1: "execLoop normalizePhone (PHONE_NUMBER_REGEX ?M) message []
                        = Some (a1, PHONE_NUMBER_REGEX ?M)"
    using execLoop_returns[of "PHONE_NUMBER_REGEX ?M" normalizePhone message "[]"]
      patterns_consume by (auto simp: module_loaded_def)
  obtain a2 where 2: "execLoop match0 (BANK_ACCOUNT_REGEX ?M) message []
                        = Some (a2, BANK_ACCOUNT_REGEX ?M)"
    using execLoop_returns[of "BANK_ACCOUNT_REGEX ?M" match0 message "[]"]
      patterns_consume by (auto simp: module_loaded_def)
  obtain a3 where 3: "execLoop match0 (UPI_ID_REGEX ?M) message []
                        = Some (a3, UPI_ID_REGEX ?M)"
    using execLoop_returns[of "UPI_ID_REGEX ?M" match0 message "[]"]
      patterns_consume by (auto simp: module_loaded_def)
  obtain a4 where 4: "execLoop match0 (PHISHING_LINK_REGEX ?M) message []
                        = Some (a4, PHISHING_LINK_REGEX ?M)"
    using execLoop_returns[of "PHISHING_LINK_REGEX ?M" match0 message "[]"]
      patterns_consume by (auto simp: module_loaded_def)
  obtain a5 where 5: "execLoop match0 (EMAIL_ADDRESS_REGEX ?M) message []
                        = Some (a5, EMAIL_ADDRESS_REGEX ?M)"
    using execLoop_returns[of "EMAIL_ADDRESS_REGEX ?M" match0 message "[]"]
      patterns_consume by (auto simp: module_loaded_def)
  obtain a6 where 6: "execLoop match1 (GENERIC_ID_REGEX ?M) message []
                        = Some (a6, GENERIC_ID_REGEX ?M)"
    using execLoop_returns[of "GENERIC_ID_REGEX ?M" match1 message "[]"]
      patterns_consume by (auto simp: module_loaded_def)
  show ?thesis
    by (simp add: extractIntelligence_def 1 2 3 4 5 6)
qed

lemma after_calls_restores: "after_calls ts module_loaded = Some module_loaded"
proof (induction ts)
  case Nil
  show ?case by simp
next
  case (Cons t ts)
  from extractIntelligence_restores[of t] obtain r where
    "extractIntelligence t module_loaded = Some (r, module_loaded)" ..
  with Cons show ?case by simp
qed

text \<open>What the normalisation of a phone number does remove.\<close>

lemma normalizePhone_strips:
  assumes "c \<in> set (normalizePhone m)"
  shows "c \<noteq> CHR ''-'' \<and> c \<noteq> CHR ''('' \<and> c \<noteq> CHR '')'' \<and> \<not> isWhitespace c"
  using assms by (auto simp: normalizePhone_def class_match_def canon_def)

text \<open>
  Claim C3. The claim: no string stored in the phone-numbers category holds a separator,
  be it a space, a dot, a hyphen or a parenthesis. The pattern admits the dot as a
  separator, the normalisation does not remove it: on the text \<open>call 415.555.2671\<close>
  the extractor stores \<open>415.555.2671\<close>, dots included.
\<close>

theorem extractIntelligence_keeps_dots:
  "map_option (phoneNumbers \<circ> fst) (extractIntelligence ''call 415.555.2671'' module_loaded)
     = Some [''415.555.2671'']"
  by code_simp

text \<open>
  Claim C6. Two calls of \<open>extractIntelligence\<close> in sequence on the same text return the
  same six sets, whatever texts the module has processed before: every call returns, and
  leaves the shared patterns as they were when the module was loaded.
\<close>

theorem extractIntelligence_repeatable:
  "\<exists>M0 r M1 M2. after_calls earlier module_loaded = Some M0
      \<and> extractIntelligence message M0 = Some (r, M1)
      \<and> extractIntelligence message M1 = Some (r, M2)"
  using after_calls_restores[of earlier] extractIntelligence_restores[of message] by auto

theorem extractIntelligence_repeatable_witness:
  "\<exists>M0 r M1 M2. after_calls [''Your Ref: AB12CD issued''] module_loaded = Some M0
      \<and> extractIntelligence ''call 415.555.2671'' M0 = Some (r, M1)
      \<and> extractIntelligence ''call 415.555.2671'' M1 = Some (r, M2)"
  by (rule extractIntelligence_repeatable)

end
